theory Spec2Isabelle
  imports Main
begin

section \<open>Strings\<close>

text \<open>
  A Python \<open>str\<close> is a sequence of Unicode code points; it is modelled as the list of
  those code points. The bot's texts are Russian, so every literal of \<open>bot.py\<close> is
  written here as the list of its code points (a space is 32, CYRILLIC SMALL LETTER A
  is 1072 = U+0430, CYRILLIC CAPITAL LETTER A is 1040 = U+0410).
\<close>

type_synonym pystr = "nat list"

text \<open>
  \<open>str.lower()\<close> belongs to the Python runtime, not to the repository. It is modelled
  code point by code point on the blocks the bot's keywords live in: the ASCII capitals
  U+0041..U+005A and the basic Cyrillic capitals U+0410..U+042F move up by 32, the
  Cyrillic capitals U+0400..U+040F move up by 80. Every other code point is left as it
  is. (Python also lowercases other scripts; none of those mappings yields a Cyrillic
  small letter or a space, so they cannot create or destroy a keyword match.)
\<close>

definition lower_cp :: "nat \<Rightarrow> nat" where
  "lower_cp c =
     (if 65 \<le> c \<and> c \<le> 90 then c + 32
      else if 1040 \<le> c \<and> c \<le> 1071 then c + 32
      else if 1024 \<le> c \<and> c \<le> 1039 then c + 80
      else c)"

definition lower :: "pystr \<Rightarrow> pystr" where
  "lower t = map lower_cp t"

text \<open>
  \<open>str.strip()\<close> without an argument removes the leading and the trailing code points
  for which \<open>str.isspace\<close> holds.
\<close>

definition isspace :: "nat \<Rightarrow> bool" where
  "isspace c \<longleftrightarrow>
     (9 \<le> c \<and> c \<le> 13) \<or> (28 \<le> c \<and> c \<le> 32) \<or> c = 133 \<or> c = 160 \<or> c = 5760 \<or>
     (8192 \<le> c \<and> c \<le> 8202) \<or> c = 8232 \<or> c = 8233 \<or> c = 8239 \<or> c = 8287 \<or> c = 12288"

definition strip :: "pystr \<Rightarrow> pystr" where
  "strip t = rev (dropWhile isspace (rev (dropWhile isspace t)))"

text \<open>\<open>kw in t\<close> on two strings: \<open>kw\<close> occurs in \<open>t\<close> as a contiguous run.\<close>

fun starts_with :: "'a list \<Rightarrow> 'a list \<Rightarrow> bool" where
  "starts_with [] t = True"
| "starts_with (k # ks) [] = False"
| "starts_with (k # ks) (c # cs) = (k = c \<and> starts_with ks cs)"

fun str_in :: "'a list \<Rightarrow> 'a list \<Rightarrow> bool" where
  "str_in kw [] = (kw = [])"
| "str_in kw (c # cs) = (starts_with kw (c # cs) \<or> str_in kw cs)"

section \<open>Session store: \<open>user_histories\<close>, \<open>get_history\<close>, \<open>reset_history\<close>\<close>

text \<open>
  A history entry is a dictionary with the two keys \<open>role\<close> and \<open>content\<close>. The roles
  are the ASCII literals \<open>system\<close>, \<open>user\<close> and \<open>assistant\<close>.
\<close>

record chat_message =
  role :: string
  content :: pystr

text \<open>
  Exceptions are values: a function that can raise returns \<open>Inl\<close> of the exception. The
  first four stand for what the completion client raises, \<open>TelegramError\<close> for what
  the chat transport raises.
\<close>

datatype py_exception =
  APIConnectionError | APITimeoutError | AuthenticationError | APIStatusError
  | IndexError | AttributeError | KeyError | TelegramError

text \<open>\<open>user_histories: Dict[int, List[Dict[str, str]]]\<close>, a module-level dictionary.\<close>

type_synonym store = "int \<rightharpoonup> chat_message list"

text \<open>
  The persona prompt of \<open>get_history\<close> (lines 49 to 56), one list per source literal:
  "Ty empatichnyj, taktichnyj psiholog-konsul'tant." and the seven rules that follow.
\<close>

definition persona_content :: pystr where
  "persona_content =
     [1058, 1099, 32, 1101, 1084, 1087, 1072, 1090, 1080, 1095, 1085, 1099, 1081, 44, 32, 1090,
      1072, 1082, 1090, 1080, 1095, 1085, 1099, 1081, 32, 1087, 1089, 1080, 1093, 1086, 1083,
      1086, 1075, 45, 1082, 1086, 1085, 1089, 1091, 1083, 1100, 1090, 1072, 1085, 1090, 46, 10] @
     [45, 32, 1054, 1090, 1074, 1077, 1095, 1072, 1081, 32, 1087, 1086, 45, 1088, 1091, 1089,
      1089, 1082, 1080, 46, 10] @
     [45, 32, 1058, 1074, 1086, 1103, 32, 1094, 1077, 1083, 1100, 32, 8212, 32, 1087, 1086,
      1076, 1076, 1077, 1088, 1078, 1072, 1090, 1100, 44, 32, 1087, 1086, 1084, 1086, 1095,
      1100, 32, 1095, 1077, 1083, 1086, 1074, 1077, 1082, 1091, 32, 1088, 1072, 1079, 1086,
      1073, 1088, 1072, 1090, 1100, 1089, 1103, 32, 1074, 32, 1095, 1091, 1074, 1089, 1090,
      1074, 1072, 1093, 32, 1080, 32, 1089, 1080, 1090, 1091, 1072, 1094, 1080, 1080, 46, 10] @
     [45, 32, 1047, 1072, 1076, 1072, 1074, 1072, 1081, 32, 1091, 1090, 1086, 1095, 1085, 1103,
      1102, 1097, 1080, 1077, 32, 1074, 1086, 1087, 1088, 1086, 1089, 1099, 44, 32, 1087, 1086,
      1084, 1086, 1075, 1072, 1081, 32, 1074, 1080, 1076, 1077, 1090, 1100, 32, 1088, 1072,
      1079, 1085, 1099, 1077, 32, 1074, 1072, 1088, 1080, 1072, 1085, 1090, 1099, 44, 32, 1087,
      1088, 1077, 1076, 1083, 1072, 1075, 1072, 1081, 32, 1084, 1103, 1075, 1082, 1080, 1077,
      32, 1096, 1072, 1075, 1080, 46, 10] @
     [45, 32, 1053, 1077, 32, 1089, 1090, 1072, 1074, 1100, 32, 1087, 1089, 1080, 1093, 1080,
      1072, 1090, 1088, 1080, 1095, 1077, 1089, 1082, 1080, 1093, 32, 1076, 1080, 1072, 1075,
      1085, 1086, 1079, 1086, 1074, 32, 1080, 32, 1085, 1077, 32, 1086, 1073, 1089, 1091, 1078,
      1076, 1072, 1081, 32, 1083, 1077, 1082, 1072, 1088, 1089, 1090, 1074, 1072, 46, 10] @
     [45, 32, 1045, 1089, 1083, 1080, 32, 1095, 1077, 1083, 1086, 1074, 1077, 1082, 32, 1074,
      1080, 1085, 1080, 1090, 32, 1089, 1077, 1073, 1103, 44, 32, 1087, 1086, 1084, 1086, 1075,
      1080, 32, 1089, 1085, 1080, 1079, 1080, 1090, 1100, 32, 1089, 1072, 1084, 1086, 1082,
      1088, 1080, 1090, 1080, 1082, 1091, 32, 1080, 32, 1091, 1074, 1080, 1076, 1077, 1090,
      1100, 32, 1082, 1086, 1085, 1090, 1077, 1082, 1089, 1090, 46, 10] @
     [45, 32, 1054, 1090, 1074, 1077, 1095, 1072, 1081, 32, 1086, 1073, 1099, 1095, 1085, 1086,
      32, 51, 8211, 54, 32, 1087, 1088, 1077, 1076, 1083, 1086, 1078, 1077, 1085, 1080, 1103,
      1084, 1080, 44, 32, 1073, 1077, 1079, 32, 1086, 1075, 1088, 1086, 1084, 1085, 1099, 1093,
      32, 1087, 1086, 1083, 1086, 1090, 1077, 1085, 46, 10] @
     [45, 32, 1041, 1091, 1076, 1100, 32, 1090, 1105, 1087, 1083, 1099, 1084, 44, 32, 1085,
      1086, 32, 1091, 1074, 1072, 1078, 1080, 1090, 1077, 1083, 1100, 1085, 1099, 1084, 44, 32,
      1073, 1077, 1079, 32, 1089, 1102, 1089, 1102, 1082, 1072, 1085, 1100, 1103, 46, 10]"

definition system_message :: chat_message where
  "system_message = \<lparr>role = ''system'', content = persona_content\<rparr>"

text \<open>
  \<open>get_history\<close> creates the history on first use and returns it. The returned list is
  the object stored in the dictionary, so the model returns the updated store together
  with the history.
\<close>

definition get_history :: "store \<Rightarrow> int \<Rightarrow> store \<times> chat_message list" where
  "get_history st user_id =
     (case st user_id of
        None \<Rightarrow> (st(user_id \<mapsto> [system_message]), [system_message])
      | Some history \<Rightarrow> (st, history))"

text \<open>\<open>del d[k]\<close> raises \<open>KeyError\<close> when the key is absent.\<close>

definition del_item :: "store \<Rightarrow> int \<Rightarrow> py_exception + store" where
  "del_item st k = (if k \<in> dom st then Inr (st(k := None)) else Inl KeyError)"

definition reset_history :: "store \<Rightarrow> int \<Rightarrow> py_exception + store" where
  "reset_history st user_id = (if user_id \<in> dom st then del_item st user_id else Inr st)"

section \<open>Safety filter: \<open>is_crisis_message\<close>\<close>

text \<open>
  The keyword list of lines 80 to 89: "ubit' sebya", "suicid", "pokonchit' s soboj",
  "ne hochu zhit'", "hochu umeret'", "rezat' veny", "samoubij", "sebya ub'yu",
  "net smysla zhit'", "bessmyslenno zhit'".
\<close>

definition crisis_keywords :: "pystr list" where
  "crisis_keywords =
  [[1091, 1073, 1080, 1090, 1100, 32, 1089, 1077, 1073, 1103],
   [1089, 1091, 1080, 1094, 1080, 1076],
   [1087, 1086, 1082, 1086, 1085, 1095, 1080, 1090, 1100, 32, 1089, 32, 1089, 1086, 1073,
    1086, 1081],
   [1085, 1077, 32, 1093, 1086, 1095, 1091, 32, 1078, 1080, 1090, 1100],
   [1093, 1086, 1095, 1091, 32, 1091, 1084, 1077, 1088, 1077, 1090, 1100],
   [1088, 1077, 1079, 1072, 1090, 1100, 32, 1074, 1077, 1085, 1099],
   [1089, 1072, 1084, 1086, 1091, 1073, 1080, 1081],
   [1089, 1077, 1073, 1103, 32, 1091, 1073, 1100, 1102],
   [1085, 1077, 1090, 32, 1089, 1084, 1099, 1089, 1083, 1072, 32, 1078, 1080, 1090, 1100],
   [1073, 1077, 1089, 1089, 1084, 1099, 1089, 1083, 1077, 1085, 1085, 1086, 32, 1078, 1080,
    1090, 1100]]"

text \<open>
  The argument is optional in the model because \<open>if not text\<close> answers \<open>False\<close> both for
  \<open>None\<close> and for the empty string.
\<close>

definition is_crisis_message :: "pystr option \<Rightarrow> bool" where
  "is_crisis_message text_arg =
     (case text_arg of
        None \<Rightarrow> False
      | Some t0 \<Rightarrow>
          if t0 = [] then False
          else (let t = lower t0 in list_ex (\<lambda>kw. str_in kw t) crisis_keywords))"

section \<open>Effects\<close>

text \<open>
  The handlers talk to two services and to the logger. Each call they make is recorded,
  in program order, as an event; what the services answer is an input of the model.
  One run of \<open>handle_message\<close> makes at most one call of each kind, so one answer per
  kind is enough.
\<close>

datatype event =
  LoggerInfo
  | SendAction
  | IsCrisisMessage bool
  | ReplyText pystr
  | ChatCompletionsCreate "chat_message list"
  | LoggerException

text \<open>
  A completion is read only through \<open>completion.choices[0].message.content\<close>: it is
  modelled as the list of its choices' contents, each of which may be \<open>None\<close>.
\<close>

type_synonym completion = "pystr option list"

record env =
  send_action_result :: "py_exception option"
  completion_result :: "py_exception + completion"
  reply_text_result :: "py_exception option"

text \<open>
  Of an update the handlers read \<open>update.message\<close> (which may be \<open>None\<close>), its \<open>text\<close>
  (which may be \<open>None\<close>) and \<open>update.effective_user.id\<close>; the sender is taken to be
  present, as it is for every message the text filter of \<open>main\<close> lets through.
\<close>

record tg_message =
  message_text :: "pystr option"

record tg_update =
  upd_message :: "tg_message option"
  effective_user_id :: int

text \<open>\<open>await update.message.reply_text(text)\<close>: the call, then what the transport answers.\<close>

definition reply_text :: "env \<Rightarrow> pystr \<Rightarrow> event list \<times> (py_exception + unit)" where
  "reply_text env t =
     ([ReplyText t], (case reply_text_result env of None \<Rightarrow> Inr () | Some e \<Rightarrow> Inl e))"

section \<open>Crisis reply\<close>

text \<open>
  The fixed text of \<open>crisis_reply\<close> (lines 101 to 110): it names a trusted person, a
  psychologist or psychotherapist, and the emergency services (112).
\<close>

definition crisis_text :: pystr where
  "crisis_text =
     [1071, 32, 1089, 1083, 1099, 1096, 1091, 44, 32, 1095, 1090, 1086, 32, 1090, 1077, 1073,
      1077, 32, 1089, 1077, 1081, 1095, 1072, 1089, 32, 1086, 1095, 1077, 1085, 1100, 32, 1090,
      1103, 1078, 1077, 1083, 1086, 44, 32, 1080, 32, 1084, 1099, 1089, 1083, 1080, 44, 32,
      1086, 32, 1082, 1086, 1090, 1086, 1088, 1099, 1093, 32, 1090, 1099, 32, 1087, 1080, 1096,
      1077, 1096, 1100, 44, 32] @
     [1075, 1086, 1074, 1086, 1088, 1103, 1090, 32, 1086, 32, 1089, 1080, 1083, 1100, 1085,
      1086, 1081, 32, 1073, 1086, 1083, 1080, 32, 128148, 10, 10] @
     [1071, 32, 1082, 1072, 1082, 32, 1073, 1086, 1090, 32, 1085, 1077, 32, 1084, 1086, 1075,
      1091, 32, 1087, 1086, 1083, 1085, 1086, 1094, 1077, 1085, 1085, 1086, 32, 1087, 1086,
      1084, 1086, 1095, 1100, 32, 1074, 32, 1090, 1072, 1082, 1086, 1081, 32, 1089, 1080, 1090,
      1091, 1072, 1094, 1080, 1080, 44, 32, 1085, 1086, 32, 1086, 1095, 1077, 1085, 1100, 32,
      1074, 1072, 1078, 1085, 1086, 44, 32] @
     [1095, 1090, 1086, 1073, 1099, 32, 1088, 1103, 1076, 1086, 1084, 32, 1086, 1082, 1072,
      1079, 1072, 1083, 1089, 1103, 32, 1078, 1080, 1074, 1086, 1081, 32, 1095, 1077, 1083,
      1086, 1074, 1077, 1082, 44, 32, 1082, 1086, 1090, 1086, 1088, 1099, 1081, 32, 1089, 1084,
      1086, 1078, 1077, 1090, 32, 1101, 1090, 1086, 32, 1089, 1076, 1077, 1083, 1072, 1090,
      1100, 46, 10, 10] @
     [1055, 1086, 1078, 1072, 1083, 1091, 1081, 1089, 1090, 1072, 44, 32, 1086, 1073, 1088,
      1072, 1090, 1080, 1089, 1100, 32, 1079, 1072, 32, 1087, 1086, 1084, 1086, 1097, 1100,
      1102, 58, 10] @
     [8226, 32, 1082, 32, 1073, 1083, 1080, 1079, 1082, 1086, 1084, 1091, 32, 1095, 1077, 1083,
      1086, 1074, 1077, 1082, 1091, 44, 32, 1082, 1086, 1090, 1086, 1088, 1086, 1084, 1091, 32,
      1090, 1099, 32, 1073, 1086, 1083, 1077, 1077, 45, 1084, 1077, 1085, 1077, 1077, 32, 1076,
      1086, 1074, 1077, 1088, 1103, 1077, 1096, 1100, 59, 10] @
     [8226, 32, 1082, 32, 1087, 1089, 1080, 1093, 1086, 1083, 1086, 1075, 1091, 32, 1080, 1083,
      1080, 32, 1087, 1089, 1080, 1093, 1086, 1090, 1077, 1088, 1072, 1087, 1077, 1074, 1090,
      1091, 32, 40, 1086, 1095, 1085, 1086, 32, 1080, 1083, 1080, 32, 1086, 1085, 1083, 1072,
      1081, 1085, 41, 59, 10] @
     [8226, 32, 1074, 32, 1084, 1077, 1089, 1090, 1085, 1091, 1102, 32, 1089, 1083, 1091, 1078,
      1073, 1091, 32, 1101, 1082, 1089, 1090, 1088, 1077, 1085, 1085, 1086, 1081, 32, 1087,
      1086, 1084, 1086, 1097, 1080, 32, 1080, 1083, 1080, 32, 1085, 1072, 32, 1085, 1086, 1084,
      1077, 1088, 32, 1101, 1082, 1089, 1090, 1088, 1077, 1085, 1085, 1099, 1093, 32, 1089,
      1083, 1091, 1078, 1073, 32, 40, 1085, 1072, 1087, 1088, 1080, 1084, 1077, 1088, 44, 32,
      49, 49, 50, 41, 46, 10, 10] @
     [1058, 1099, 32, 1087, 1088, 1072, 1074, 1076, 1072, 32, 1079, 1072, 1089, 1083, 1091,
      1078, 1080, 1074, 1072, 1077, 1096, 1100, 32, 1087, 1086, 1076, 1076, 1077, 1088, 1078,
      1082, 1080, 46, 32, 1058, 1074, 1086, 1080, 32, 1095, 1091, 1074, 1089, 1090, 1074, 1072,
      32, 8212, 32, 1085, 1077, 32, 1089, 1083, 1072, 1073, 1086, 1089, 1090, 1100, 32, 1080,
      32, 1085, 1077, 32, 1073, 1083, 1072, 1096, 46, 32] @
     [1045, 1089, 1083, 1080, 32, 1084, 1086, 1078, 1077, 1096, 1100, 44, 32, 1085, 1072, 1087,
      1080, 1096, 1080, 32, 1089, 1077, 1081, 1095, 1072, 1089, 32, 1082, 1086, 1084, 1091, 45,
      1090, 1086, 32, 1080, 1079, 32, 1078, 1080, 1074, 1099, 1093, 32, 1083, 1102, 1076, 1077,
      1081, 32, 1080, 1083, 1080, 32, 1087, 1086, 1079, 1074, 1086, 1085, 1080, 32, 1074, 32,
      1101, 1082, 1089, 1090, 1088, 1077, 1085, 1085, 1091, 1102, 32, 1089, 1083, 1091, 1078,
      1073, 1091, 46]"


definition crisis_reply :: "env \<Rightarrow> tg_update \<Rightarrow> event list \<times> (py_exception + unit)" where
  "crisis_reply env upd =
     (case upd_message upd of
        None \<Rightarrow> ([], Inr ())
      | Some m \<Rightarrow> reply_text env crisis_text)"

section \<open>Completion client: \<open>call_openai_chat\<close>\<close>

text \<open>
  The fallback of the \<open>except\<close> branch (lines 144 and 145): "Ya sejchas ne mogu
  obratit'sya k svoej nejroseti. Poprobuj, pozhalujsta, napisat' pozzhe."
\<close>

definition fallback_text :: pystr where
  "fallback_text =
     [1071, 32, 1089, 1077, 1081, 1095, 1072, 1089, 32, 1085, 1077, 32, 1084, 1086, 1075, 1091,
      32, 1086, 1073, 1088, 1072, 1090, 1080, 1090, 1100, 1089, 1103, 32, 1082, 32, 1089, 1074,
      1086, 1077, 1081, 32, 1085, 1077, 1081, 1088, 1086, 1089, 1077, 1090, 1080, 32, 128532,
      10] @
     [1055, 1086, 1087, 1088, 1086, 1073, 1091, 1081, 44, 32, 1087, 1086, 1078, 1072, 1083,
      1091, 1081, 1089, 1090, 1072, 44, 32, 1085, 1072, 1087, 1080, 1089, 1072, 1090, 1100, 32,
      1087, 1086, 1079, 1078, 1077, 46]"


text \<open>
  The body of the \<open>try\<close> statement (lines 124 to 139). It raises when the client raises,
  when \<open>choices\<close> is empty (\<open>IndexError\<close>) and when the content is \<open>None\<close>
  (\<open>AttributeError\<close> on \<open>.strip()\<close>); all of that happens before the reply is appended.
  \<open>history[-28:]\<close> is the last 28 entries, or all of them when there are fewer.
\<close>

definition chat_try ::
  "env \<Rightarrow> store \<Rightarrow> int \<Rightarrow> chat_message list \<Rightarrow> event list \<times> store \<times> (py_exception + pystr)"
where
  "chat_try env st user_id history =
     (case completion_result env of
        Inl e \<Rightarrow> ([ChatCompletionsCreate history], st, Inl e)
      | Inr completion \<Rightarrow>
          (case completion of
             [] \<Rightarrow> ([ChatCompletionsCreate history], st, Inl IndexError)
           | choice # rest \<Rightarrow>
               (case choice of
                  None \<Rightarrow> ([ChatCompletionsCreate history], st, Inl AttributeError)
                | Some c \<Rightarrow>
                    (let reply = strip c;
                         history2 = history @ [\<lparr>role = ''assistant'', content = reply\<rparr>];
                         st2 = st(user_id \<mapsto> history2);
                         st3 =
                           (if length history2 > 30 then
                              (let system_msg = hd history2;
                                   last_msgs = drop (length history2 - 28) history2
                               in st2(user_id \<mapsto> system_msg # last_msgs))
                            else st2)
                     in ([ChatCompletionsCreate history], st3, Inr reply)))))"

text \<open>
  \<open>call_openai_chat\<close>: the history is fetched (or created), the user's message is
  appended to it in place, and \<open>except Exception\<close> turns every exception of the body
  into the logged fallback.
\<close>

definition call_openai_chat ::
  "env \<Rightarrow> store \<Rightarrow> int \<Rightarrow> pystr \<Rightarrow> event list \<times> store \<times> (py_exception + pystr)"
where
  "call_openai_chat env st user_id user_message =
     (let (st1, history0) = get_history st user_id;
          history = history0 @ [\<lparr>role = ''user'', content = user_message\<rparr>];
          st2 = st1(user_id \<mapsto> history)
      in (case chat_try env st2 user_id history of
            (tr, st3, Inr reply) \<Rightarrow> (tr, st3, Inr reply)
          | (tr, st3, Inl e) \<Rightarrow> (tr @ [LoggerException], st3, Inr fallback_text)))"

section \<open>Router: \<open>reset_command\<close> and \<open>handle_message\<close>\<close>

text \<open>The confirmation of \<open>reset_command\<close> (lines 187 and 188).\<close>

definition reset_text :: pystr where
  "reset_text =
     [1071, 32, 1086, 1095, 1080, 1089, 1090, 1080, 1083, 32, 1080, 1089, 1090, 1086, 1088,
      1080, 1102, 32, 1085, 1072, 1096, 1077, 1075, 1086, 32, 1076, 1080, 1072, 1083, 1086,
      1075, 1072, 32, 9989, 10] @
     [1052, 1086, 1078, 1077, 1084, 32, 1085, 1072, 1095, 1072, 1090, 1100, 32, 1089, 1085,
      1072, 1095, 1072, 1083, 1072, 46, 32, 1056, 1072, 1089, 1089, 1082, 1072, 1078, 1080, 44,
      32, 1095, 1090, 1086, 32, 1089, 1077, 1081, 1095, 1072, 1089, 32, 1076, 1083, 1103, 32,
      1090, 1077, 1073, 1103, 32, 1089, 1072, 1084, 1086, 1077, 32, 1074, 1072, 1078, 1085,
      1086, 1077, 46]"


definition reset_command ::
  "env \<Rightarrow> store \<Rightarrow> tg_update \<Rightarrow> event list \<times> store \<times> (py_exception + unit)"
where
  "reset_command env st upd =
     (let user_id = effective_user_id upd
      in (case reset_history st user_id of
            Inl e \<Rightarrow> ([], st, Inl e)
          | Inr st1 \<Rightarrow>
              (case upd_message upd of
                 None \<Rightarrow> ([], st1, Inr ())
               | Some m \<Rightarrow> (let (tr, r) = reply_text env reset_text in (tr, st1, r)))))"

text \<open>
  \<open>handle_message\<close>: a missing message and a missing or empty text return at once. An
  exception of \<open>send_action\<close> or of \<open>reply_text\<close> is not caught here, so it leaves the
  handler.
\<close>

definition handle_message ::
  "env \<Rightarrow> store \<Rightarrow> tg_update \<Rightarrow> event list \<times> store \<times> (py_exception + unit)"
where
  "handle_message env st upd =
     (case upd_message upd of
        None \<Rightarrow> ([], st, Inr ())
      | Some m \<Rightarrow>
          (case message_text m of
             None \<Rightarrow> ([], st, Inr ())
           | Some raw \<Rightarrow>
               if raw = [] then ([], st, Inr ())
               else
                 (let user_id = effective_user_id upd;
                      user_text = strip raw
                  in (case send_action_result env of
                        Some e \<Rightarrow> ([LoggerInfo, SendAction], st, Inl e)
                      | None \<Rightarrow>
                          if is_crisis_message (Some user_text) then
                            (let (tr, r) = crisis_reply env upd
                             in ([LoggerInfo, SendAction, IsCrisisMessage True] @ tr, st, r))
                          else
                            (case call_openai_chat env st user_id user_text of
                               (tr, st1, Inl e) \<Rightarrow>
                                 ([LoggerInfo, SendAction, IsCrisisMessage False] @ tr, st1, Inl e)
                             | (tr, st1, Inr reply) \<Rightarrow>
                                 (let (tr2, r) = reply_text env reply
                                  in ([LoggerInfo, SendAction, IsCrisisMessage False] @ tr @ tr2,
                                      st1, r)))))))"

text \<open>The store after a sequence of text messages, each with its services' answers.\<close>

fun run_messages :: "store \<Rightarrow> (env \<times> tg_update) list \<Rightarrow> store" where
  "run_messages st [] = st"
| "run_messages st (x # xs) = run_messages (fst (snd (handle_message (fst x) st (snd x)))) xs"

section \<open>Notions the properties are stated with\<close>

text \<open>
  The content the \<open>try\<close> body reads from the service's answer: \<open>None\<close> when the client
  raised, returned no choice, or returned a first choice without content.
\<close>

definition completion_content :: "env \<Rightarrow> pystr option" where
  "completion_content env =
     (case completion_result env of
        Inl e \<Rightarrow> None
      | Inr completion \<Rightarrow> (case completion of [] \<Rightarrow> None | choice # rest \<Rightarrow> choice))"

text \<open>The history a user has, or would be given on first use.\<close>

definition history_of :: "store \<Rightarrow> int \<Rightarrow> chat_message list" where
  "history_of st user_id = snd (get_history st user_id)"

definition user_entry :: "pystr \<Rightarrow> chat_message" where
  "user_entry t = \<lparr>role = ''user'', content = t\<rparr>"

definition assistant_entry :: "pystr \<Rightarrow> chat_message" where
  "assistant_entry t = \<lparr>role = ''assistant'', content = t\<rparr>"

text \<open>What lines 134 to 137 leave of a history.\<close>

definition limit_history :: "chat_message list \<Rightarrow> chat_message list" where
  "limit_history h = (if length h > 30 then hd h # drop (length h - 28) h else h)"

text \<open>
  The invariant of the store: a user who is present has a history that starts with the
  persona entry and holds no other entry of role \<open>system\<close>.
\<close>

definition history_ok :: "chat_message list \<Rightarrow> bool" where
  "history_ok h \<longleftrightarrow>
     h \<noteq> [] \<and> hd h = system_message \<and> (\<forall>m \<in> set (tl h). role m \<noteq> ''system'')"

definition store_inv :: "store \<Rightarrow> bool" where
  "store_inv st \<longleftrightarrow> (\<forall>u h. st u = Some h \<longrightarrow> history_ok h)"

text \<open>Concrete inputs: a text message of a user, and three behaviours of the services.\<close>

definition text_update :: "int \<Rightarrow> pystr \<Rightarrow> tg_update" where
  "text_update u t = \<lparr>upd_message = Some \<lparr>message_text = Some t\<rparr>, effective_user_id = u\<rparr>"

definition env_ok :: "pystr \<Rightarrow> env" where
  "env_ok c =
     \<lparr>send_action_result = None, completion_result = Inr [Some c], reply_text_result = None\<rparr>"

definition env_completion_down :: env where
  "env_completion_down =
     \<lparr>send_action_result = None, completion_result = Inl APITimeoutError,
      reply_text_result = None\<rparr>"

definition env_transport_down :: env where
  "env_transport_down =
     \<lparr>send_action_result = Some TelegramError, completion_result = Inr [Some [111, 107]],
      reply_text_result = None\<rparr>"

text \<open>
  A successful non-crisis exchange of user \<open>u\<close>: a text message of \<open>u\<close> that is not empty
  and not classified as crisis, a typing signal that went through, and an answer of
  the completion service with content. \<open>exchange_entries\<close> are the two entries such an
  exchange appends.
\<close>

definition update_text :: "tg_update \<Rightarrow> pystr option" where
  "update_text upd = (case upd_message upd of None \<Rightarrow> None | Some m \<Rightarrow> message_text m)"

definition normal_exchange :: "int \<Rightarrow> env \<times> tg_update \<Rightarrow> bool" where
  "normal_exchange u x \<longleftrightarrow>
     effective_user_id (snd x) = u \<and> send_action_result (fst x) = None \<and>
     (case update_text (snd x) of
        None \<Rightarrow> False
      | Some raw \<Rightarrow> raw \<noteq> [] \<and> \<not> is_crisis_message (Some (strip raw))) \<and>
     completion_content (fst x) \<noteq> None"

definition exchange_entries :: "env \<times> tg_update \<Rightarrow> chat_message list" where
  "exchange_entries x =
     (case (update_text (snd x), completion_content (fst x)) of
        (Some raw, Some c) \<Rightarrow> [user_entry (strip raw), assistant_entry (strip c)]
      | _ \<Rightarrow> [])"

text \<open>The events that are calls of the completion service.\<close>

fun is_completion_call :: "event \<Rightarrow> bool" where
  "is_completion_call (ChatCompletionsCreate h) = True"
| "is_completion_call e = False"

text \<open>A message that holds the crisis keyword "suicid" in capitals: "Ya dumayu pro SUICID."\<close>

definition crisis_example :: pystr where
  "crisis_example =
     [1071, 32, 1076, 1091, 1084, 1072, 1102, 32, 1087, 1088, 1086, 32,
      1057, 1059, 1048, 1062, 1048, 1044, 46]"

section \<open>Properties of the safety filter\<close>

lemma starts_with_iff: "starts_with kw t \<longleftrightarrow> (\<exists>post. t = kw @ post)"
  by (induction kw t rule: starts_with.induct) auto

lemma str_in_iff: "str_in kw t \<longleftrightarrow> (\<exists>pre post. t = pre @ kw @ post)"
proof (induction t)
  case Nil
  then show ?case by auto
next
  case (Cons c cs)
  show ?case
  proof
    assume "str_in kw (c # cs)"
    then consider "starts_with kw (c # cs)" | "str_in kw cs" by auto
    then show "\<exists>pre post. c # cs = pre @ kw @ post"
    proof cases
      case 1
      then obtain post where "c # cs = kw @ post" by (auto simp: starts_with_iff)
      then have "c # cs = [] @ kw @ post" by simp
      then show ?thesis by blast
    next
      case 2
      with Cons obtain pre post where "cs = pre @ kw @ post" by blast
      then have "c # cs = (c # pre) @ kw @ post" by simp
      then show ?thesis by blast
    qed
  next
    assume "\<exists>pre post. c # cs = pre @ kw @ post"
    then obtain pre post where e: "c # cs = pre @ kw @ post" by blast
    show "str_in kw (c # cs)"
    proof (cases pre)
      case Nil
      with e have "starts_with kw (c # cs)" by (auto simp: starts_with_iff)
      then show ?thesis by simp
    next
      case (Cons p ps)
      with e have "cs = ps @ kw @ post" by simp
      with Cons.IH have "str_in kw cs" by blast
      then show ?thesis by simp
    qed
  qed
qed

lemma lower_append: "lower (a @ b) = lower a @ lower b"
  by (simp add: lower_def)

lemma keyword_lowercase: "kw \<in> set crisis_keywords \<Longrightarrow> lower kw = kw \<and> kw \<noteq> []"
  by (auto simp: crisis_keywords_def lower_def lower_cp_def)

lemma lower_split:
  assumes "lower t = pre @ kw @ post"
  shows "\<exists>a w b. t = a @ w @ b \<and> lower w = kw"
proof -
  let ?a = "take (length pre) t"
  let ?w = "take (length kw) (drop (length pre) t)"
  let ?b = "drop (length kw) (drop (length pre) t)"
  have t: "t = ?a @ ?w @ ?b" by (simp only: append_take_drop_id)
  have "lower ?w = take (length kw) (drop (length pre) (lower t))"
    by (simp add: lower_def take_map drop_map)
  also have "\<dots> = kw" by (simp add: assms)
  finally have "lower ?w = kw" .
  with t show ?thesis by blast
qed

lemma is_crisis_message_iff:
  "is_crisis_message x \<longleftrightarrow>
     (\<exists>t kw pre post. x = Some t \<and> t \<noteq> [] \<and> kw \<in> set crisis_keywords \<and>
        lower t = pre @ kw @ post)"
proof (cases x)
  case None
  then show ?thesis by (simp add: is_crisis_message_def)
next
  case (Some t)
  have "is_crisis_message (Some t) \<longleftrightarrow>
      t \<noteq> [] \<and> (\<exists>kw \<in> set crisis_keywords. \<exists>pre post. lower t = pre @ kw @ post)"
    by (simp add: is_crisis_message_def list_ex_iff str_in_iff)
  with Some show ?thesis by blast
qed

text \<open>
  C7. The classifier is a function of its text alone and matches keywords as substrings,
  anywhere and in any letter case. It answers crisis exactly when the text is present,
  not empty, and its lowercased form holds a crisis keyword as a contiguous run; said of
  the text itself: exactly when the text holds, somewhere, a string equal to a crisis
  keyword up to letter case. So a keyword in any letter case inside a longer sentence
  gives crisis, two texts equal up to letter case are classified alike, a text without
  such a run is normal, and the empty text and \<open>None\<close> are normal.
\<close>

theorem is_crisis_message_matches:
  "(is_crisis_message x \<longleftrightarrow>
      (\<exists>t kw pre post. x = Some t \<and> t \<noteq> [] \<and> kw \<in> set crisis_keywords \<and>
         lower t = pre @ kw @ post))
   \<and> (is_crisis_message (Some t0) \<longleftrightarrow>
      (\<exists>kw pre w post. kw \<in> set crisis_keywords \<and> t0 = pre @ w @ post \<and> lower w = lower kw))
   \<and> (kw \<in> set crisis_keywords \<and> lower w = lower kw \<longrightarrow> is_crisis_message (Some (pre @ w @ post)))
   \<and> (lower t1 = lower t2 \<longrightarrow> is_crisis_message (Some t1) = is_crisis_message (Some t2))
   \<and> \<not> is_crisis_message (Some [])
   \<and> \<not> is_crisis_message None"
proof -
  have a: "is_crisis_message (Some (pre @ w @ post))"
    if k: "kw \<in> set crisis_keywords" and l: "lower w = lower kw" for kw w pre post
  proof -
    from k have kl: "lower kw = kw" and kn: "kw \<noteq> []" by (simp_all add: keyword_lowercase)
    from l kl kn have "w \<noteq> []" by (auto simp: lower_def)
    then have ne: "pre @ w @ post \<noteq> []" by simp
    have "lower (pre @ w @ post) = lower pre @ kw @ lower post"
      using l kl by (simp add: lower_append)
    with k ne show ?thesis unfolding is_crisis_message_iff by blast
  qed
  have b: "is_crisis_message (Some t1) = is_crisis_message (Some t2)" if "lower t1 = lower t2"
  proof -
    from that have "length t1 = length t2" unfolding lower_def by (rule map_eq_imp_length_eq)
    then have "t1 = [] \<longleftrightarrow> t2 = []" by auto
    with that show ?thesis by (simp add: is_crisis_message_def)
  qed
  have c: "\<not> is_crisis_message (Some [])" "\<not> is_crisis_message None"
    by (simp_all add: is_crisis_message_def)
  have d: "\<exists>kw pre w post. kw \<in> set crisis_keywords \<and> t0 = pre @ w @ post \<and> lower w = lower kw"
    if "is_crisis_message (Some t0)"
  proof -
    from that obtain kw pre post where k: "kw \<in> set crisis_keywords"
      and l: "lower t0 = pre @ kw @ post"
      unfolding is_crisis_message_iff by blast
    from lower_split [OF l] obtain a w b where "t0 = a @ w @ b" and "lower w = kw" by blast
    moreover from k have "lower kw = kw" by (simp add: keyword_lowercase)
    ultimately show ?thesis using k by metis
  qed
  have e: "is_crisis_message (Some t0) \<longleftrightarrow>
      (\<exists>kw pre w post. kw \<in> set crisis_keywords \<and> t0 = pre @ w @ post \<and> lower w = lower kw)"
  proof
    assume "is_crisis_message (Some t0)"
    then show "\<exists>kw pre w post. kw \<in> set crisis_keywords \<and> t0 = pre @ w @ post \<and>
        lower w = lower kw"
      by (rule d)
  next
    assume "\<exists>kw pre w post. kw \<in> set crisis_keywords \<and> t0 = pre @ w @ post \<and>
        lower w = lower kw"
    then obtain kw pre w post where "kw \<in> set crisis_keywords" "t0 = pre @ w @ post"
      "lower w = lower kw" by blast
    with a [of kw w pre post] show "is_crisis_message (Some t0)" by simp
  qed
  show ?thesis
  proof (intro conjI)
    show "is_crisis_message x \<longleftrightarrow>
      (\<exists>t kw pre post. x = Some t \<and> t \<noteq> [] \<and> kw \<in> set crisis_keywords \<and>
         lower t = pre @ kw @ post)"
      by (rule is_crisis_message_iff)
    show "is_crisis_message (Some t0) \<longleftrightarrow>
      (\<exists>kw pre w post. kw \<in> set crisis_keywords \<and> t0 = pre @ w @ post \<and> lower w = lower kw)"
      by (rule e)
    show "kw \<in> set crisis_keywords \<and> lower w = lower kw \<longrightarrow>
        is_crisis_message (Some (pre @ w @ post))"
      using a [of kw w pre post] by (intro impI) (erule conjE)
    show "lower t1 = lower t2 \<longrightarrow> is_crisis_message (Some t1) = is_crisis_message (Some t2)"
      using b by (intro impI)
    show "\<not> is_crisis_message (Some [])" by (rule c(1))
    show "\<not> is_crisis_message None" by (rule c(2))
  qed
qed

theorem is_crisis_message_matches_witness:
  "[1089, 1091, 1080, 1094, 1080, 1076] \<in> set crisis_keywords
   \<and> lower [1057, 1091, 1048, 1094, 1048, 1044] = lower [1089, 1091, 1080, 1094, 1080, 1076]
   \<and> is_crisis_message (Some ([1071, 32] @ [1057, 1091, 1048, 1094, 1048, 1044] @ [46]))
   \<and> lower [1057, 1091, 1084] = lower [1089, 1091, 1052]
   \<and> is_crisis_message (Some [1057, 1091, 1084]) = is_crisis_message (Some [1089, 1091, 1052])
   \<and> \<not> is_crisis_message (Some [1057, 1091, 1084])
   \<and> \<not> is_crisis_message (Some [104, 105])"
proof -
  have n: "\<not> is_crisis_message (Some [1057, 1091, 1084])" "\<not> is_crisis_message (Some [104, 105])"
    by (simp_all add: is_crisis_message_def lower_def lower_cp_def crisis_keywords_def)
  note m = is_crisis_message_matches [where kw = "[1089, 1091, 1080, 1094, 1080, 1076]"
      and w = "[1057, 1091, 1048, 1094, 1048, 1044]" and pre = "[1071, 32]" and post = "[46]"
      and ?t1.0 = "[1057, 1091, 1084]" and ?t2.0 = "[1089, 1091, 1052]"]
  note c3 = m [THEN conjunct2, THEN conjunct2, THEN conjunct1]
  note c4 = m [THEN conjunct2, THEN conjunct2, THEN conjunct2, THEN conjunct1]
  from c3 c4 n show ?thesis by (simp add: crisis_keywords_def lower_def lower_cp_def)
qed

lemma get_history_store: "fst (get_history st u) = st(u \<mapsto> history_of st u)"
  by (auto simp: get_history_def history_of_def split: option.splits)

lemma history_of_cases:
  "history_of st u = (case st u of None \<Rightarrow> [system_message] | Some h \<Rightarrow> h)"
  by (simp add: get_history_def history_of_def split: option.splits)

lemma get_history_eq: "get_history st u = (st(u \<mapsto> history_of st u), history_of st u)"
  using get_history_store [of st u] by (simp add: history_of_def prod_eq_iff)

lemma reset_history_eq: "reset_history st u = Inr (st(u := None))"
  by (auto simp: reset_history_def del_item_def)

lemma chat_try_fail:
  "completion_content env = None \<Longrightarrow>
     \<exists>e. chat_try env st u h = ([ChatCompletionsCreate h], st, Inl e)"
  by (auto simp: completion_content_def chat_try_def split: sum.splits list.splits)

lemma chat_try_ok:
  "completion_content env = Some c \<Longrightarrow>
     chat_try env st u h =
       ([ChatCompletionsCreate h],
        st(u \<mapsto> limit_history (h @ [assistant_entry (strip c)])), Inr (strip c))"
  by (auto simp: completion_content_def chat_try_def limit_history_def assistant_entry_def Let_def
      split: sum.splits list.splits)

lemma call_openai_chat_fail:
  assumes "completion_content env = None"
  shows "call_openai_chat env st u m =
     ([ChatCompletionsCreate (history_of st u @ [user_entry m]), LoggerException],
      st(u \<mapsto> history_of st u @ [user_entry m]), Inr fallback_text)"
proof -
  let ?h = "history_of st u @ [user_entry m]"
  from chat_try_fail [OF assms] obtain e where
    "chat_try env (st(u \<mapsto> ?h)) u ?h = ([ChatCompletionsCreate ?h], st(u \<mapsto> ?h), Inl e)"
    by blast
  then show ?thesis
    by (simp add: call_openai_chat_def get_history_eq user_entry_def Let_def)
qed

lemma call_openai_chat_ok:
  assumes "completion_content env = Some c"
  shows "call_openai_chat env st u m =
     ([ChatCompletionsCreate (history_of st u @ [user_entry m])],
      st(u \<mapsto> limit_history (history_of st u @ [user_entry m, assistant_entry (strip c)])),
      Inr (strip c))"
  using chat_try_ok [OF assms, of "st(u \<mapsto> history_of st u @ [user_entry m])" u
      "history_of st u @ [user_entry m]"]
  by (simp add: call_openai_chat_def get_history_eq user_entry_def Let_def)


lemma handle_message_normal:
  "upd_message upd = Some m \<Longrightarrow> message_text m = Some raw \<Longrightarrow> raw \<noteq> [] \<Longrightarrow>
   send_action_result env = None \<Longrightarrow> \<not> is_crisis_message (Some (strip raw)) \<Longrightarrow>
   call_openai_chat env st (effective_user_id upd) (strip raw) = (tr, st1, Inr reply) \<Longrightarrow>
   handle_message env st upd =
     ([LoggerInfo, SendAction, IsCrisisMessage False] @ tr @ [ReplyText reply], st1,
      (case reply_text_result env of None \<Rightarrow> Inr () | Some e \<Rightarrow> Inl e))"
  by (simp add: handle_message_def reply_text_def)

lemma call_openai_chat_cases:
  "call_openai_chat env st u m =
     (case completion_content env of
        None \<Rightarrow>
          ([ChatCompletionsCreate (history_of st u @ [user_entry m]), LoggerException],
           st(u \<mapsto> history_of st u @ [user_entry m]), Inr fallback_text)
      | Some c \<Rightarrow>
          ([ChatCompletionsCreate (history_of st u @ [user_entry m])],
           st(u \<mapsto> limit_history (history_of st u @ [user_entry m, assistant_entry (strip c)])),
           Inr (strip c)))"
  by (simp add: call_openai_chat_fail call_openai_chat_ok split: option.splits)

lemma handle_message_store:
  "fst (snd (handle_message env st upd)) = st \<or>
   fst (snd (handle_message env st upd)) =
     fst (snd (call_openai_chat env st (effective_user_id upd) (strip (the (message_text (the (upd_message upd)))))))"
  by (auto simp: handle_message_def crisis_reply_def reply_text_def Let_def
      split: option.splits sum.splits prod.splits)


section \<open>Properties of the session store\<close>

lemma reset_command_store:
  "fst (snd (reset_command env st upd)) = st(effective_user_id upd := None)"
  by (simp add: reset_history_eq reset_command_def reply_text_def Let_def split: option.splits)

text \<open>
  C9. Whatever the store held before, \<open>reset_history\<close> raises nothing and leaves the user
  without a history; a second reset changes nothing; and the next \<open>get_history\<close>
  creates a history of length 1 that holds only the persona entry.
\<close>

theorem reset_history_fresh:
  "reset_history st u = Inr (st(u := None))
   \<and> reset_history (st(u := None)) u = Inr (st(u := None))
   \<and> get_history (st(u := None)) u = (st(u \<mapsto> [system_message]), [system_message])
   \<and> length (snd (get_history (st(u := None)) u)) = 1
   \<and> fst (snd (reset_command env st upd)) = st(effective_user_id upd := None)"
  by (simp add: reset_history_eq get_history_def reset_command_store)

lemma chat_try_other:
  "v \<noteq> u \<Longrightarrow> fst (snd (chat_try env st u h)) v = st v"
  by (cases "completion_content env")
    (auto simp: chat_try_ok dest: chat_try_fail [where st = st and u = u and h = h])

lemma call_openai_chat_other:
  "v \<noteq> u \<Longrightarrow> fst (snd (call_openai_chat env st u m)) v = st v"
  by (simp add: call_openai_chat_cases split: option.splits)

lemma handle_message_other:
  "v \<noteq> effective_user_id upd \<Longrightarrow> fst (snd (handle_message env st upd)) v = st v"
  using handle_message_store [of env st upd] by (auto simp: call_openai_chat_other)

text \<open>
  C10. An operation for user \<open>u\<close> leaves the history of every other user \<open>v\<close> as it was:
  creating, resetting, the body of the completion call (append of the reply and
  trimming), the completion call as a whole, and the two handlers that touch the store.
\<close>

theorem per_user_isolation:
  assumes "v \<noteq> u"
  shows "fst (get_history st u) v = st v
   \<and> (case reset_history st u of Inl e \<Rightarrow> False | Inr st1 \<Rightarrow> st1 v = st v)
   \<and> fst (snd (chat_try env st u h)) v = st v
   \<and> fst (snd (call_openai_chat env st u m)) v = st v
   \<and> (effective_user_id upd = u \<longrightarrow>
        fst (snd (handle_message env st upd)) v = st v
        \<and> fst (snd (reset_command env st upd)) v = st v)"
proof -
  have "fst (snd (reset_command env st upd)) v = st v" if "effective_user_id upd = u"
    using that assms by (simp add: reset_command_store)
  with assms show ?thesis
    by (simp add: get_history_store reset_history_eq chat_try_other call_openai_chat_other
        handle_message_other)
qed


theorem per_user_isolation_witness:
  "(2::int) \<noteq> 1
   \<and> fst (get_history [2 \<mapsto> [system_message]] 1) 2 = Some [system_message]
   \<and> fst (snd (call_openai_chat (env_ok [111, 107]) [2 \<mapsto> [system_message]] 1 [104, 105])) 2
       = Some [system_message]
   \<and> effective_user_id (text_update 1 [104, 105]) = 1
   \<and> fst (snd (handle_message (env_ok [111, 107]) [2 \<mapsto> [system_message]]
        (text_update 1 [104, 105]))) 2 = Some [system_message]
   \<and> fst (snd (reset_command (env_ok [111, 107]) [2 \<mapsto> [system_message]]
        (text_update 1 [104, 105]))) 2 = Some [system_message]"
  using per_user_isolation [of 2 1 "[2 \<mapsto> [system_message]]" "env_ok [111, 107]" "[]"
      "[104, 105]" "text_update 1 [104, 105]"]
  by (simp add: text_update_def)

lemma history_ok_append:
  "history_ok h \<Longrightarrow> role m \<noteq> ''system'' \<Longrightarrow> history_ok (h @ [m])"
  by (cases h) (auto simp: history_ok_def)

lemma history_ok_limit: "history_ok h \<Longrightarrow> history_ok (limit_history h)"
proof (cases "length h > 30")
  case False
  then show "history_ok h \<Longrightarrow> history_ok (limit_history h)" by (simp add: limit_history_def)
next
  case True
  assume ok: "history_ok h"
  then obtain x xs where h: "h = x # xs" by (cases h) (auto simp: history_ok_def)
  from True h have "drop (length h - 28) h = drop (length xs - 28) xs"
    by (simp add: drop_Cons' Suc_diff_le)
  then have "set (drop (length h - 28) h) \<subseteq> set (tl h)"
    using h by (simp add: set_drop_subset)
  with ok True show "history_ok (limit_history h)"
    by (auto simp: history_ok_def limit_history_def)
qed

lemma history_ok_history_of: "store_inv st \<Longrightarrow> history_ok (history_of st u)"
  by (auto simp: history_of_cases store_inv_def history_ok_def split: option.splits)

lemma store_inv_upd: "store_inv st \<Longrightarrow> history_ok h \<Longrightarrow> store_inv (st(u \<mapsto> h))"
  by (simp add: store_inv_def)

lemma store_inv_del: "store_inv st \<Longrightarrow> store_inv (st(u := None))"
  by (simp add: store_inv_def)

lemma store_inv_call_openai_chat:
  assumes "store_inv st"
  shows "store_inv (fst (snd (call_openai_chat env st u m)))"
proof -
  have h: "history_ok (history_of st u)" using assms by (rule history_ok_history_of)
  then have h1: "history_ok (history_of st u @ [user_entry m])"
    by (rule history_ok_append) (simp add: user_entry_def)
  then have "history_ok ((history_of st u @ [user_entry m]) @ [assistant_entry r])" for r
    by (rule history_ok_append) (simp add: assistant_entry_def)
  then have h2: "history_ok (limit_history (history_of st u @ [user_entry m, assistant_entry r]))"
    for r using history_ok_limit by fastforce
  show ?thesis
    using assms h1 h2 by (simp add: call_openai_chat_cases store_inv_upd split: option.splits)
qed

lemma store_inv_handle_message:
  "store_inv st \<Longrightarrow> store_inv (fst (snd (handle_message env st upd)))"
  using handle_message_store [of env st upd] by (auto simp: store_inv_call_openai_chat)

lemma store_inv_run_messages: "store_inv st \<Longrightarrow> store_inv (run_messages st xs)"
  by (induction xs arbitrary: st) (simp_all add: store_inv_handle_message)

text \<open>
  C8. The empty store satisfies the invariant, and every operation keeps it: creating a
  history, resetting, the completion call with its appends and its trimming (whether or
  not the service answers), the handlers, and any sequence of text messages. So every
  user who is present has a non-empty history whose first entry is the persona entry
  and whose other entries are not of role \<open>system\<close>.
\<close>

theorem store_invariant_preserved:
  assumes "store_inv st"
  shows "store_inv Map.empty
   \<and> store_inv (fst (get_history st u))
   \<and> (case reset_history st u of Inl e \<Rightarrow> False | Inr st1 \<Rightarrow> store_inv st1)
   \<and> store_inv (fst (snd (call_openai_chat env st u m)))
   \<and> store_inv (fst (snd (handle_message env st upd)))
   \<and> store_inv (fst (snd (reset_command env st upd)))
   \<and> store_inv (run_messages st xs)
   \<and> (\<forall>h. run_messages st xs u = Some h \<longrightarrow> h \<noteq> [] \<and> hd h = system_message)"
proof -
  have e: "store_inv Map.empty" by (simp add: store_inv_def)
  have g: "store_inv (fst (get_history st u))"
    using assms by (simp add: get_history_store store_inv_upd history_ok_history_of)
  have r: "store_inv (st(w := None))" for w using assms by (rule store_inv_del)
  have x: "store_inv (run_messages st xs)" using assms by (rule store_inv_run_messages)
  then have y: "\<forall>h. run_messages st xs u = Some h \<longrightarrow> h \<noteq> [] \<and> hd h = system_message"
    by (auto simp: store_inv_def history_ok_def)
  from e g r x y assms show ?thesis
    by (simp add: reset_history_eq reset_command_store store_inv_call_openai_chat
        store_inv_handle_message)
qed


theorem store_invariant_preserved_witness:
  "store_inv [1 \<mapsto> [system_message]]
   \<and> store_inv (fst (get_history [1 \<mapsto> [system_message]] 2))
   \<and> store_inv (fst (snd (call_openai_chat env_completion_down [1 \<mapsto> [system_message]] 1 [104, 105])))
   \<and> store_inv (fst (snd (handle_message (env_ok [111, 107]) [1 \<mapsto> [system_message]]
        (text_update 1 [104, 105]))))
   \<and> store_inv (run_messages [1 \<mapsto> [system_message]]
        [(env_ok [111, 107], text_update 1 [104, 105]),
         (env_completion_down, text_update 1 [104, 105])])"
proof -
  have "store_inv [1 \<mapsto> [system_message]]"
    by (simp add: store_inv_def history_ok_def)
  from store_invariant_preserved [OF this, where u = 2]
    store_invariant_preserved [OF this, where u = 1 and env = env_completion_down
      and m = "[104, 105]"]
    store_invariant_preserved [OF this, where env = "env_ok [111, 107]"
      and upd = "text_update 1 [104, 105]"
      and xs = "[(env_ok [111, 107], text_update 1 [104, 105]),
        (env_completion_down, text_update 1 [104, 105])]"]
    this
  show ?thesis by simp
qed

section \<open>Properties of trimming\<close>

lemma handle_message_exchange:
  assumes "normal_exchange u x"
  shows "fst (snd (handle_message (fst x) st (snd x))) =
     st(u \<mapsto> limit_history (history_of st u @ exchange_entries x))"
proof -
  from assms obtain m raw c where
    m: "upd_message (snd x) = Some m" "message_text m = Some raw" and
    raw: "raw \<noteq> []" "\<not> is_crisis_message (Some (strip raw))" and
    c: "completion_content (fst x) = Some c" and
    u: "effective_user_id (snd x) = u" and s: "send_action_result (fst x) = None"
    by (auto simp: normal_exchange_def update_text_def split: option.splits)
  have e: "exchange_entries x = [user_entry (strip raw), assistant_entry (strip c)]"
    using m c by (simp add: exchange_entries_def update_text_def)
  have "call_openai_chat (fst x) st (effective_user_id (snd x)) (strip raw) =
     ([ChatCompletionsCreate (history_of st u @ [user_entry (strip raw)])],
      st(u \<mapsto> limit_history (history_of st u @ exchange_entries x)), Inr (strip c))"
    using c u e by (simp add: call_openai_chat_ok)
  from handle_message_normal [OF m raw(1) s raw(2) this] show ?thesis by simp
qed

lemma history_of_upd: "history_of (st(u \<mapsto> h)) u = h"
  by (simp add: history_of_cases)

lemma limit_history_window:
  assumes "even (length es)"
  shows "limit_history ((system_message # drop (length es - 28) es) @ [a, b]) =
     system_message # drop (length (es @ [a, b]) - 28) (es @ [a, b])"
proof (cases "length es \<le> 26")
  case True
  then show ?thesis by (simp add: limit_history_def)
next
  case False
  with assms have n: "28 \<le> length es" by presburger
  then have l: "length (drop (length es - 28) es) = 28" by simp
  have "2 + (length es - 28) = length es - 26" using n by arith
  then have "drop 2 (drop (length es - 28) es) = drop (length es - 26) es"
    by (simp only: drop_drop)
  moreover have "drop (length es - 26) (es @ [a, b]) = drop (length es - 26) es @ [a, b]"
    by simp
  ultimately show ?thesis using n l by (simp add: limit_history_def)
qed

lemma exchange_entries_pair:
  "normal_exchange u x \<Longrightarrow> \<exists>a b. exchange_entries x = [a, b]"
  by (auto simp: normal_exchange_def exchange_entries_def split: option.splits)

lemma exchange_window_step:
  assumes w: "history_of st u = system_message # drop (length es - 28) es"
    and ev: "even (length es)" and x: "normal_exchange u x"
  shows "history_of (fst (snd (handle_message (fst x) st (snd x)))) u =
      system_message # drop (length (es @ exchange_entries x) - 28) (es @ exchange_entries x)"
proof -
  from x obtain a b where ab: "exchange_entries x = [a, b]"
    using exchange_entries_pair by blast
  have "history_of (fst (snd (handle_message (fst x) st (snd x)))) u =
      limit_history (history_of st u @ exchange_entries x)"
    by (simp add: handle_message_exchange [OF x] history_of_upd)
  also have "\<dots> = limit_history ((system_message # drop (length es - 28) es) @ [a, b])"
    by (simp only: w ab)
  also have "\<dots> = system_message # drop (length (es @ [a, b]) - 28) (es @ [a, b])"
    using ev by (rule limit_history_window)
  finally show ?thesis by (simp only: ab)
qed

lemma exchange_window_run:
  assumes "history_of st u = system_message # drop (length es - 28) es"
    and "even (length es)" and "\<forall>x \<in> set xs. normal_exchange u x"
  shows "history_of (run_messages st xs) u =
      system_message #
        drop (length (es @ concat (map exchange_entries xs)) - 28)
          (es @ concat (map exchange_entries xs))
    \<and> even (length (es @ concat (map exchange_entries xs)))"
  using assms
proof (induction xs arbitrary: st es)
  case Nil
  then show ?case by simp
next
  case (Cons x xs)
  from Cons.prems have x: "normal_exchange u x" by simp
  then obtain a b where ab: "exchange_entries x = [a, b]"
    using exchange_entries_pair by blast
  have w: "history_of (fst (snd (handle_message (fst x) st (snd x)))) u =
      system_message # drop (length (es @ exchange_entries x) - 28) (es @ exchange_entries x)"
    using Cons.prems(1,2) x by (rule exchange_window_step)
  have ev: "even (length (es @ exchange_entries x))"
    using Cons.prems(2) ab by simp
  from Cons.prems have rest: "\<forall>y \<in> set xs. normal_exchange u y" by simp
  from Cons.IH [OF w ev rest] show ?case by simp
qed

lemma length_exchange_entries:
  "\<forall>x \<in> set xs. normal_exchange u x \<Longrightarrow>
     length (concat (map exchange_entries xs)) = 2 * length xs"
proof (induction xs)
  case Nil
  then show ?case by simp
next
  case (Cons x xs)
  then obtain a b where "exchange_entries x = [a, b]"
    using exchange_entries_pair by (metis list.set_intros(1))
  with Cons show ?case by simp
qed

text \<open>
  C3. A successful exchange leaves the history with both entries appended and then
  limited: a history of more than 30 entries becomes its first entry followed by its
  last 28. So for a user without a history, after \<open>N\<close> successful non-crisis exchanges
  the history is the persona entry followed by the last 28 of the \<open>2N\<close> entries
  exchanged (all of them while \<open>2N \<le> 28\<close>), and its length is \<open>1 + 2N\<close> while that is
  at most 30 and 29 afterwards.
\<close>

theorem trimming_window:
  assumes "st u = None" and "\<forall>x \<in> set xs. normal_exchange u x"
  shows "(\<forall>x st0. normal_exchange u x \<longrightarrow>
            fst (snd (handle_message (fst x) st0 (snd x))) u =
              Some (limit_history (history_of st0 u @ exchange_entries x)))
    \<and> (\<forall>h. 30 < length h \<longrightarrow> limit_history h = hd h # drop (length h - 28) h)
    \<and> (\<forall>h. length h \<le> 30 \<longrightarrow> limit_history h = h)
    \<and> history_of (run_messages st xs) u =
         system_message #
           drop (2 * length xs - 28) (concat (map exchange_entries xs))
    \<and> length (history_of (run_messages st xs) u) =
         (if 1 + 2 * length xs \<le> 30 then 1 + 2 * length xs else 29)
    \<and> (xs \<noteq> [] \<longrightarrow> run_messages st xs u = Some (history_of (run_messages st xs) u))"
proof -
  let ?es = "concat (map exchange_entries xs)"
  have len: "length ?es = 2 * length xs" using assms(2) by (rule length_exchange_entries)
  have "history_of st u = system_message # drop (length ([]::chat_message list) - 28) []"
    using assms(1) by (simp add: history_of_cases)
  from exchange_window_run [OF this _ assms(2)]
  have w: "history_of (run_messages st xs) u = system_message # drop (length ?es - 28) ?es"
    by simp
  then have w': "history_of (run_messages st xs) u = system_message # drop (2 * length xs - 28) ?es"
    by (simp only: len)
  have l: "length (history_of (run_messages st xs) u) =
      (if 1 + 2 * length xs \<le> 30 then 1 + 2 * length xs else 29)"
    using len by (auto simp: w)
  have s: "fst (snd (handle_message (fst x) st0 (snd x))) u =
      Some (limit_history (history_of st0 u @ exchange_entries x))"
    if "normal_exchange u x" for x st0
    by (simp add: handle_message_exchange [OF that])
  have p: "run_messages st xs u = Some (history_of (run_messages st xs) u)" if "xs \<noteq> []"
  proof -
    from that obtain ys y where xs: "xs = ys @ [y]" by (metis rev_exhaust)
    have r: "run_messages st0 (ys @ zs) = run_messages (run_messages st0 ys) zs" for st0 zs
      by (induction ys arbitrary: st0) simp_all
    from assms(2) xs have "normal_exchange u y" by simp
    from handle_message_exchange [OF this]
    have "\<exists>h. run_messages st xs u = Some h" by (simp add: xs r)
    then show ?thesis by (auto simp: history_of_cases)
  qed
  from w' l s p show ?thesis by (simp add: limit_history_def)
qed


lemma hi_not_crisis: "\<not> is_crisis_message (Some (strip [104, 105]))"
  by (simp add: is_crisis_message_def strip_def isspace_def lower_def lower_cp_def
      crisis_keywords_def)

lemma normal_exchange_hi: "normal_exchange 1 (env_ok c, text_update 1 [104, 105])"
  using hi_not_crisis
  by (simp add: normal_exchange_def update_text_def text_update_def env_ok_def
      completion_content_def)

theorem trimming_window_witness:
  "(Map.empty :: store) 1 = None
   \<and> normal_exchange 1 (env_ok [32, 111, 107, 10], text_update 1 [104, 105])
   \<and> history_of (run_messages Map.empty
        (replicate 2 (env_ok [32, 111, 107, 10], text_update 1 [104, 105]))) 1 =
       [system_message, user_entry [104, 105], assistant_entry [111, 107],
        user_entry [104, 105], assistant_entry [111, 107]]
   \<and> length (history_of (run_messages Map.empty
        (replicate 14 (env_ok [32, 111, 107, 10], text_update 1 [104, 105]))) 1) = 29
   \<and> length (history_of (run_messages Map.empty
        (replicate 15 (env_ok [32, 111, 107, 10], text_update 1 [104, 105]))) 1) = 29
   \<and> history_of (run_messages Map.empty
        (replicate 15 (env_ok [32, 111, 107, 10], text_update 1 [104, 105]))) 1 =
       system_message # concat (replicate 14 [user_entry [104, 105], assistant_entry [111, 107]])"
proof -
  let ?x = "(env_ok [32, 111, 107, 10], text_update 1 [104, 105])"
  have n: "normal_exchange 1 ?x" by (rule normal_exchange_hi)
  have e: "exchange_entries ?x = [user_entry [104, 105], assistant_entry [111, 107]]"
    by (simp add: exchange_entries_def update_text_def text_update_def env_ok_def
        completion_content_def strip_def isspace_def)
  have a: "\<forall>x \<in> set (replicate k ?x). normal_exchange 1 x" for k using n by simp
  have m: "(Map.empty :: store) 1 = None" by simp
  have s15: "(15::nat) = Suc 14" by simp
  have "replicate 15 v = v # replicate 14 v" for v :: "chat_message list"
    by (simp only: s15 replicate_Suc)
  then have d: "drop 2 (concat (replicate 15 [user_entry [104, 105], assistant_entry [111, 107]])) =
      concat (replicate 14 [user_entry [104, 105], assistant_entry [111, 107]])"
    by simp
  have "replicate 2 v = [v, v]" for v :: "chat_message list"
    by (simp only: numeral_2_eq_2 replicate_Suc replicate_0)
  then have r: "concat (replicate 2 [user_entry [104, 105], assistant_entry [111, 107]]) =
      [user_entry [104, 105], assistant_entry [111, 107],
       user_entry [104, 105], assistant_entry [111, 107]]"
    by simp
  note hist = trimming_window [OF m a, THEN conjunct2, THEN conjunct2, THEN conjunct2,
      THEN conjunct1]
  note len = trimming_window [OF m a, THEN conjunct2, THEN conjunct2, THEN conjunct2,
      THEN conjunct2, THEN conjunct1]
  have t2: "history_of (run_messages Map.empty (replicate 2 ?x)) 1 =
       [system_message, user_entry [104, 105], assistant_entry [111, 107],
        user_entry [104, 105], assistant_entry [111, 107]]"
    using hist [of 2] by (simp add: e r)
  have t14: "length (history_of (run_messages Map.empty (replicate 14 ?x)) 1) = 29"
    using len [of 14] by simp
  have t15: "length (history_of (run_messages Map.empty (replicate 15 ?x)) 1) = 29"
    using len [of 15] by simp
  have w15: "history_of (run_messages Map.empty (replicate 15 ?x)) 1 =
       system_message # concat (replicate 14 [user_entry [104, 105], assistant_entry [111, 107]])"
    using hist [of 15] by (simp add: e d)
  from n m t2 t14 t15 w15 show ?thesis by blast
qed

section \<open>Properties of the router\<close>

lemma crisis_example_crisis: "is_crisis_message (Some (strip crisis_example))"
  by (simp add: crisis_example_def is_crisis_message_def strip_def isspace_def lower_def
      lower_cp_def crisis_keywords_def)

lemma handle_message_cases:
  assumes "update_text upd = Some raw" and "raw \<noteq> []"
  shows "handle_message env st upd =
     (case send_action_result env of
        Some e \<Rightarrow> ([LoggerInfo, SendAction], st, Inl e)
      | None \<Rightarrow>
          if is_crisis_message (Some (strip raw)) then
            ([LoggerInfo, SendAction, IsCrisisMessage True, ReplyText crisis_text], st,
             (case reply_text_result env of None \<Rightarrow> Inr () | Some e \<Rightarrow> Inl e))
          else
            (case call_openai_chat env st (effective_user_id upd) (strip raw) of
               (tr, st1, Inl e) \<Rightarrow> ([LoggerInfo, SendAction, IsCrisisMessage False] @ tr, st1, Inl e)
             | (tr, st1, Inr reply) \<Rightarrow>
                 ([LoggerInfo, SendAction, IsCrisisMessage False] @ tr @ [ReplyText reply], st1,
                  (case reply_text_result env of None \<Rightarrow> Inr () | Some e \<Rightarrow> Inl e))))"
  using assms
  by (auto simp: handle_message_def update_text_def crisis_reply_def reply_text_def Let_def
      split: option.splits sum.splits prod.splits)

lemma handle_message_no_text:
  "update_text upd = None \<or> update_text upd = Some [] \<Longrightarrow>
     handle_message env st upd = ([], st, Inr ())"
  by (auto simp: handle_message_def update_text_def split: option.splits)

text \<open>
  C1. When the router has classified a text message as crisis, it sends the fixed safety
  text and nothing else follows: no call of the completion service, and the store is
  the one it was, so the user's history is neither changed nor created and the message
  is not stored. The store and the completion service stay untouched for every message
  whose text is a crisis text, whatever the services answer.
\<close>

theorem crisis_path_frame:
  assumes "handle_message env st upd = (tr, st1, res)"
  shows "(IsCrisisMessage True \<in> set tr \<longrightarrow>
            tr = [LoggerInfo, SendAction, IsCrisisMessage True, ReplyText crisis_text]
            \<and> \<not> list_ex is_completion_call tr \<and> st1 = st)
    \<and> ((case update_text upd of None \<Rightarrow> False
           | Some raw \<Rightarrow> raw \<noteq> [] \<and> is_crisis_message (Some (strip raw))) \<longrightarrow>
            \<not> list_ex is_completion_call tr \<and> st1 = st
            \<and> (send_action_result env = None \<longrightarrow> IsCrisisMessage True \<in> set tr))"
proof (cases "update_text upd")
  case None
  with assms show ?thesis by (auto simp: handle_message_no_text)
next
  case (Some raw)
  show ?thesis
  proof (cases "raw = []")
    case True
    with Some assms show ?thesis by (auto simp: handle_message_no_text)
  next
    case False
    from handle_message_cases [OF Some False, of env st] assms
    show ?thesis
      using Some False
      by (auto simp: call_openai_chat_cases split: option.splits if_splits)
  qed
qed


lemma handle_message_crisis_example:
  "handle_message (env_ok c) st (text_update 1 crisis_example) =
     ([LoggerInfo, SendAction, IsCrisisMessage True, ReplyText crisis_text], st, Inr ())"
proof -
  have t: "update_text (text_update 1 crisis_example) = Some crisis_example"
    by (simp add: update_text_def text_update_def)
  have n: "crisis_example \<noteq> []" by (simp add: crisis_example_def)
  show ?thesis
    using crisis_example_crisis
    by (simp add: handle_message_cases [OF t n] env_ok_def)
qed

theorem crisis_path_frame_witness:
  "handle_message (env_ok [111, 107]) [1 \<mapsto> [system_message]] (text_update 1 crisis_example) =
     ([LoggerInfo, SendAction, IsCrisisMessage True, ReplyText crisis_text],
      [1 \<mapsto> [system_message]], Inr ())
   \<and> IsCrisisMessage True \<in>
       set [LoggerInfo, SendAction, IsCrisisMessage True, ReplyText crisis_text]
   \<and> \<not> list_ex is_completion_call
       [LoggerInfo, SendAction, IsCrisisMessage True, ReplyText crisis_text]
   \<and> update_text (text_update 1 crisis_example) = Some crisis_example
   \<and> crisis_example \<noteq> []
   \<and> is_crisis_message (Some (strip crisis_example))
   \<and> fst (snd (handle_message (env_ok [111, 107]) Map.empty (text_update 1 crisis_example))) 1
       = None"
proof -
  have a: "update_text (text_update 1 crisis_example) = Some crisis_example"
    by (simp add: update_text_def text_update_def)
  have b: "crisis_example \<noteq> []" by (simp add: crisis_example_def)
  note h = handle_message_crisis_example [of "[111, 107]"]
  from crisis_path_frame [OF h [of "[1 \<mapsto> [system_message]]"]]
    crisis_path_frame [OF h [of Map.empty]] h a b crisis_example_crisis
  show ?thesis by simp
qed

text \<open>
  C2, as stated, fails: the typing signal is sent before the message is classified. When
  that call raises, the handler ends with the exception; a crisis message is then not
  classified and gets no reply.
\<close>

theorem crisis_check_skipped_counterexample:
  "is_crisis_message (Some (strip crisis_example))
   \<and> handle_message env_transport_down Map.empty (text_update 1 crisis_example) =
       ([LoggerInfo, SendAction], Map.empty, Inl TelegramError)
   \<and> IsCrisisMessage True \<notin> set [LoggerInfo, SendAction]
   \<and> ReplyText crisis_text \<notin> set [LoggerInfo, SendAction]"
proof -
  have t: "update_text (text_update 1 crisis_example) = Some crisis_example"
    by (simp add: update_text_def text_update_def)
  have n: "crisis_example \<noteq> []" by (simp add: crisis_example_def)
  show ?thesis
    using crisis_example_crisis
    by (simp add: handle_message_cases [OF t n] env_transport_down_def)
qed

text \<open>
  C2, amended. For a text message that is not empty, the handler logs, sends the typing
  signal and then classifies: the classification is the third event, before every call
  of the completion service and before every reply, and the typing signal is the only
  service call before it. When the signal returns, the message is classified and the
  branch of the result is taken; when it raises, the handler ends with that exception,
  the store unchanged.
\<close>

theorem crisis_check_order:
  assumes "update_text upd = Some raw" and "raw \<noteq> []"
    and "handle_message env st upd = (tr, st1, res)"
  shows "take 2 tr = [LoggerInfo, SendAction]
    \<and> (send_action_result env = None \<longrightarrow>
          take 3 tr = [LoggerInfo, SendAction, IsCrisisMessage (is_crisis_message (Some (strip raw)))]
          \<and> (is_crisis_message (Some (strip raw)) \<longrightarrow> drop 3 tr = [ReplyText crisis_text])
          \<and> (\<not> is_crisis_message (Some (strip raw)) \<longrightarrow>
                (\<exists>reply. drop 3 tr =
                   fst (call_openai_chat env st (effective_user_id upd) (strip raw)) @
                   [ReplyText reply])))
    \<and> (\<forall>e. send_action_result env = Some e \<longrightarrow>
          tr = [LoggerInfo, SendAction] \<and> st1 = st \<and> res = Inl e)"
  using handle_message_cases [OF assms(1,2), of env st] assms(3)
  by (auto simp: call_openai_chat_cases split: option.splits if_splits)

theorem crisis_check_order_witness:
  "update_text (text_update 1 crisis_example) = Some crisis_example
   \<and> crisis_example \<noteq> []
   \<and> handle_message (env_ok [111, 107]) Map.empty (text_update 1 crisis_example) =
       ([LoggerInfo, SendAction, IsCrisisMessage True, ReplyText crisis_text], Map.empty, Inr ())
   \<and> send_action_result (env_ok [111, 107]) = None
   \<and> is_crisis_message (Some (strip crisis_example))
   \<and> take 3 [LoggerInfo, SendAction, IsCrisisMessage True, ReplyText crisis_text] =
       [LoggerInfo, SendAction, IsCrisisMessage True]
   \<and> drop 3 [LoggerInfo, SendAction, IsCrisisMessage True, ReplyText crisis_text] =
       [ReplyText crisis_text]"
proof -
  have a: "update_text (text_update 1 crisis_example) = Some crisis_example"
    by (simp add: update_text_def text_update_def)
  have b: "crisis_example \<noteq> []" by (simp add: crisis_example_def)
  note h = handle_message_crisis_example [of "[111, 107]" Map.empty]
  from crisis_check_order [OF a b h] a b h crisis_example_crisis
  show ?thesis by (simp add: env_ok_def)
qed


section \<open>Properties of the completion client\<close>

lemma strip_split:
  "\<exists>a b. t = a @ strip t @ b \<and> list_all isspace a \<and> list_all isspace b"
proof -
  let ?d = "dropWhile isspace t"
  let ?r = "rev ?d"
  have 1: "t = takeWhile isspace t @ ?d" by simp
  have "rev ?r = rev (takeWhile isspace ?r @ dropWhile isspace ?r)"
    by (simp only: takeWhile_dropWhile_id)
  then have "?d = rev (dropWhile isspace ?r) @ rev (takeWhile isspace ?r)"
    by (simp only: rev_rev_ident rev_append)
  then have 3: "?d = strip t @ rev (takeWhile isspace ?r)"
    by (simp only: strip_def)
  have 4: "list_all isspace (takeWhile isspace t)"
    by (auto simp: list_all_iff dest: set_takeWhileD)
  have 5: "list_all isspace (rev (takeWhile isspace ?r))"
    by (auto simp: list_all_iff dest: set_takeWhileD)
  from 1 3 have "t = takeWhile isspace t @ strip t @ rev (takeWhile isspace ?r)"
    by metis
  with 4 5 show ?thesis by blast
qed

lemma strip_ends:
  assumes "strip t \<noteq> []"
  shows "\<not> isspace (hd (strip t)) \<and> \<not> isspace (last (strip t))"
proof -
  let ?d = "dropWhile isspace t"
  let ?e = "dropWhile isspace (rev ?d)"
  have s: "strip t = rev ?e" by (simp only: strip_def)
  with assms have e: "?e \<noteq> []" by simp
  then have "\<not> isspace (hd ?e)" by (rule hd_dropWhile)
  moreover have "last (rev ?e) = hd ?e" using e by (simp only: last_rev)
  ultimately have l: "\<not> isspace (last (strip t))" by (metis s)
  from e have "rev ?d \<noteq> []" by (metis dropWhile.simps(1))
  then have d: "?d \<noteq> []" by simp
  then have h: "\<not> isspace (hd ?d)" by (rule hd_dropWhile)
  have "rev ?d = takeWhile isspace (rev ?d) @ ?e" by (simp only: takeWhile_dropWhile_id)
  then have "last (rev ?d) = last ?e" using e by (metis last_appendR)
  moreover have "last (rev ?d) = hd ?d" using d by (simp only: last_rev)
  moreover have "hd (rev ?e) = last ?e" using e by (simp only: hd_rev)
  ultimately have "hd (strip t) = hd ?d" by (metis s)
  with h l show ?thesis by simp
qed

text \<open>
  C5. When the completion call fails (the client raises, or its answer has no usable
  content), \<open>call_openai_chat\<close> returns the fallback text and raises nothing; the store
  gains the user's entry and nothing else, so no entry of role \<open>assistant\<close> is recorded
  for the failed attempt, and the handler replies with the fallback text.
\<close>

theorem completion_failure_fallback:
  assumes "completion_content env = None"
  shows "call_openai_chat env st u m =
       ([ChatCompletionsCreate (history_of st u @ [user_entry m]), LoggerException],
        st(u \<mapsto> history_of st u @ [user_entry m]), Inr fallback_text)
    \<and> filter (\<lambda>e. role e = ''assistant'') (history_of (fst (snd (call_openai_chat env st u m))) u)
        = filter (\<lambda>e. role e = ''assistant'') (history_of st u)
    \<and> (update_text upd = Some raw \<and> raw \<noteq> [] \<and> send_action_result env = None
         \<and> \<not> is_crisis_message (Some (strip raw)) \<longrightarrow>
         fst (handle_message env st upd) =
           [LoggerInfo, SendAction, IsCrisisMessage False,
            ChatCompletionsCreate (history_of st (effective_user_id upd) @ [user_entry (strip raw)]),
            LoggerException, ReplyText fallback_text]
         \<and> fst (snd (handle_message env st upd)) =
           st(effective_user_id upd \<mapsto>
             history_of st (effective_user_id upd) @ [user_entry (strip raw)]))"
proof -
  note c = call_openai_chat_fail [OF assms]
  have f: "filter (\<lambda>e. role e = ''assistant'')
        (history_of (fst (snd (call_openai_chat env st u m))) u)
      = filter (\<lambda>e. role e = ''assistant'') (history_of st u)"
    by (simp add: c history_of_upd user_entry_def)
  have h: "fst (handle_message env st upd) =
           [LoggerInfo, SendAction, IsCrisisMessage False,
            ChatCompletionsCreate (history_of st (effective_user_id upd) @ [user_entry (strip raw)]),
            LoggerException, ReplyText fallback_text]
         \<and> fst (snd (handle_message env st upd)) =
           st(effective_user_id upd \<mapsto>
             history_of st (effective_user_id upd) @ [user_entry (strip raw)])"
    if "update_text upd = Some raw" "raw \<noteq> []" "send_action_result env = None"
      "\<not> is_crisis_message (Some (strip raw))"
    using that by (simp add: handle_message_cases [OF that(1,2)] c)
  from c f h show ?thesis by blast
qed

theorem completion_failure_fallback_witness:
  "completion_content env_completion_down = None
   \<and> call_openai_chat env_completion_down [1 \<mapsto> [system_message]] 1 [104, 105] =
       ([ChatCompletionsCreate [system_message, user_entry [104, 105]], LoggerException],
        [1 \<mapsto> [system_message, user_entry [104, 105]]], Inr fallback_text)
   \<and> update_text (text_update 1 [104, 105]) = Some [104, 105]
   \<and> send_action_result env_completion_down = None
   \<and> \<not> is_crisis_message (Some (strip [104, 105]))
   \<and> fst (handle_message env_completion_down Map.empty (text_update 1 [104, 105])) =
       [LoggerInfo, SendAction, IsCrisisMessage False,
        ChatCompletionsCreate [system_message, user_entry [104, 105]],
        LoggerException, ReplyText fallback_text]
   \<and> fst (snd (handle_message env_completion_down Map.empty (text_update 1 [104, 105]))) =
       [1 \<mapsto> [system_message, user_entry [104, 105]]]"
proof -
  have a: "completion_content env_completion_down = None"
    by (simp add: completion_content_def env_completion_down_def)
  have s: "strip [104, 105] = [104, 105]" by (simp add: strip_def isspace_def)
  have t: "update_text (text_update 1 [104, 105]) = Some [104, 105]"
    by (simp add: update_text_def text_update_def)
  have d: "send_action_result env_completion_down = None"
    by (simp add: env_completion_down_def)
  from completion_failure_fallback [OF a, of "[1 \<mapsto> [system_message]]" 1 "[104, 105]"]
    completion_failure_fallback [OF a, of Map.empty _ _ "text_update 1 [104, 105]" "[104, 105]"]
    a s t d hi_not_crisis
  show ?thesis by (simp add: history_of_cases text_update_def)
qed

text \<open>
  C6. \<open>call_openai_chat\<close> never raises. It calls the completion service exactly once.
  When the service answers with content, the result is that content stripped: the
  content is the result between two runs of white space, and the result neither starts
  nor ends with white space. When the call fails, the failure is logged right after the
  one call and the result is the fallback text.
\<close>

theorem completion_client_total:
  "(\<exists>r. snd (snd (call_openai_chat env st u m)) = Inr r)
   \<and> length (filter is_completion_call (fst (call_openai_chat env st u m))) = 1
   \<and> (\<forall>c. completion_content env = Some c \<longrightarrow>
         snd (snd (call_openai_chat env st u m)) = Inr (strip c)
         \<and> fst (call_openai_chat env st u m) =
             [ChatCompletionsCreate (history_of st u @ [user_entry m])]
         \<and> (\<exists>a b. c = a @ strip c @ b \<and> list_all isspace a \<and> list_all isspace b)
         \<and> (strip c \<noteq> [] \<longrightarrow> \<not> isspace (hd (strip c)) \<and> \<not> isspace (last (strip c))))
   \<and> (completion_content env = None \<longrightarrow>
         snd (snd (call_openai_chat env st u m)) = Inr fallback_text
         \<and> fst (call_openai_chat env st u m) =
             [ChatCompletionsCreate (history_of st u @ [user_entry m]), LoggerException])"
proof (cases "completion_content env")
  case None
  then show ?thesis by (simp add: call_openai_chat_fail)
next
  case (Some c)
  have "\<exists>a b. c = a @ strip c @ b \<and> list_all isspace a \<and> list_all isspace b"
    by (rule strip_split)
  moreover have "strip c \<noteq> [] \<longrightarrow> \<not> isspace (hd (strip c)) \<and> \<not> isspace (last (strip c))"
    using strip_ends by blast
  ultimately show ?thesis using Some by (simp add: call_openai_chat_ok)
qed

theorem completion_client_total_witness:
  "completion_content (env_ok [32, 111, 107, 10]) = Some [32, 111, 107, 10]
   \<and> snd (snd (call_openai_chat (env_ok [32, 111, 107, 10]) Map.empty 1 [104, 105])) =
       Inr [111, 107]
   \<and> fst (call_openai_chat (env_ok [32, 111, 107, 10]) Map.empty 1 [104, 105]) =
       [ChatCompletionsCreate [system_message, user_entry [104, 105]]]
   \<and> strip [32, 111, 107, 10] \<noteq> []
   \<and> \<not> isspace (hd (strip [32, 111, 107, 10]))
   \<and> \<not> isspace (last (strip [32, 111, 107, 10]))
   \<and> completion_content env_completion_down = None
   \<and> snd (snd (call_openai_chat env_completion_down Map.empty 1 [104, 105])) = Inr fallback_text
   \<and> fst (call_openai_chat env_completion_down Map.empty 1 [104, 105]) =
       [ChatCompletionsCreate [system_message, user_entry [104, 105]], LoggerException]"
proof -
  have a: "completion_content (env_ok [32, 111, 107, 10]) = Some [32, 111, 107, 10]"
    by (simp add: completion_content_def env_ok_def)
  have b: "completion_content env_completion_down = None"
    by (simp add: completion_content_def env_completion_down_def)
  have s: "strip [32, 111, 107, 10] = [111, 107]" by (simp add: strip_def isspace_def)
  from completion_client_total [of "env_ok [32, 111, 107, 10]" Map.empty 1 "[104, 105]"]
    completion_client_total [of env_completion_down Map.empty 1 "[104, 105]"] a b s
  show ?thesis by (simp add: history_of_cases)
qed

section \<open>The failure path and the cap\<close>

lemma run_messages_append:
  "run_messages st (xs @ ys) = run_messages (run_messages st xs) ys"
  by (induction xs arbitrary: st) simp_all

lemma handle_message_failed_hi:
  "fst (snd (handle_message env_completion_down st (text_update 1 [104, 105]))) =
     st(1 \<mapsto> history_of st 1 @ [user_entry [104, 105]])"
proof -
  have t: "update_text (text_update 1 [104, 105]) = Some [104, 105]"
    by (simp add: update_text_def text_update_def)
  have c: "completion_content env_completion_down = None"
    by (simp add: completion_content_def env_completion_down_def)
  have s: "strip [104, 105] = [104, 105]" by (simp add: strip_def isspace_def)
  note n = hi_not_crisis [unfolded s]
  have e: "effective_user_id (text_update 1 [104, 105]) = 1" by (simp add: text_update_def)
  have d: "send_action_result env_completion_down = None"
    by (simp add: env_completion_down_def)
  have "[104, 105] \<noteq> ([]::pystr)" by simp
  from handle_message_cases [OF t this] show ?thesis
    by (simp add: s n e d call_openai_chat_fail [OF c])
qed

lemma failed_run_length:
  "length (history_of
      (run_messages st (replicate n (env_completion_down, text_update 1 [104, 105]))) 1) =
     length (history_of st 1) + n"
proof (induction n arbitrary: st)
  case 0
  then show ?case by simp
next
  case (Suc n)
  let ?x = "(env_completion_down, text_update 1 [104, 105])"
  let ?st = "st(1 \<mapsto> history_of st 1 @ [user_entry [104, 105]])"
  have "run_messages st (replicate (Suc n) ?x) = run_messages ?st (replicate n ?x)"
    by (simp add: handle_message_failed_hi)
  then have "length (history_of (run_messages st (replicate (Suc n) ?x)) 1) =
      length (history_of ?st 1) + n"
    by (simp only: Suc.IH)
  also have "history_of ?st 1 = history_of st 1 @ [user_entry [104, 105]]"
    by (rule history_of_upd)
  finally show ?case by simp
qed

text \<open>
  C4. The failure path appends the user's entry and does not trim. A user without a
  history who has 14 successful exchanges and then two failed ones has 31 entries; and
  \<open>n\<close> failed exchanges in a row leave \<open>1 + n\<close> entries, for every \<open>n\<close>.
\<close>

theorem failure_path_exceeds_cap:
  "length (history_of
      (run_messages Map.empty
         (replicate 14 (env_ok [111, 107], text_update 1 [104, 105]) @
          replicate 2 (env_completion_down, text_update 1 [104, 105]))) 1) = 31
   \<and> length (history_of
      (run_messages Map.empty (replicate n (env_completion_down, text_update 1 [104, 105]))) 1)
      = 1 + n"
proof -
  let ?ok = "(env_ok [111, 107], text_update 1 [104, 105])"
  have a: "\<forall>x \<in> set (replicate 14 ?ok). normal_exchange 1 x"
    using normal_exchange_hi by simp
  have "history_of Map.empty 1 = system_message # drop (length ([]::chat_message list) - 28) []"
    by (simp add: history_of_cases)
  from exchange_window_run [OF this _ a]
  have w: "history_of (run_messages Map.empty (replicate 14 ?ok)) 1 =
      system_message #
        drop (length (concat (map exchange_entries (replicate 14 ?ok))) - 28)
          (concat (map exchange_entries (replicate 14 ?ok)))"
    by simp
  have "length (concat (map exchange_entries (replicate 14 ?ok))) = 28"
    using length_exchange_entries [OF a] by simp
  then have l: "length (history_of (run_messages Map.empty (replicate 14 ?ok)) 1) = 29"
    by (simp add: w)
  have e: "length (history_of (Map.empty :: store) 1) = 1" by (simp add: history_of_cases)
  show ?thesis
    by (simp only: run_messages_append failed_run_length l e) simp
qed

end
